theory Spec2Isabelle
  imports Complex_Main "HOL-Library.Multiset" "HOL-Library.Sublist"
    "HOL-Library.List_Lexorder" "HOL-Library.Char_ord"
begin

section \<open>StudioCast portal: the data model of \<^verbatim>\<open>src/App.ts\<close>\<close>

text \<open>
  Conventions of the embedding.
  \<^item> A JavaScript string is a \<open>string\<close>; the characters modelled are the code units
    below 256 (Latin-1), which is where \<open>toLowerCase\<close> and \<open>trim\<close> are written out.
  \<^item> A JavaScript \<open>number\<close> held in a record field (\<open>episodeNumber\<close>, \<open>progressPct\<close>,
    \<open>createdAt\<close>, \<open>updatedAt\<close>) is an \<open>int\<close>: the values the program stores there are
    integers far below \<open>2 ^ 53\<close>, where double arithmetic is exact. A quotient is a \<open>rat\<close>,
    and a division whose divisor may be zero yields a \<open>number\<close>, which has \<open>NaN\<close>.
  \<^item> \<open>uid(prefix)\<close> and \<open>now()\<close> read the random generator and the clock: the fresh
    identifier and the time are parameters of every handler that calls them.
  \<^item> \<open>String.prototype.localeCompare\<close> is the collation of the host and its locale: it is
    a parameter \<open>lc\<close> of the comparator that calls it and of the view that sorts with it.
  \<^item> A React state variable is a field of a record; a handler takes the state and
    returns the new one together with the text of the \<open>alert\<close> it raised, if any.
\<close>

subsection \<open>Strings\<close>

text \<open>\<open>String.prototype.trim\<close> strips white space and line terminators at both ends.\<close>

definition isWhiteSpace :: "char \<Rightarrow> bool" where
  "isWhiteSpace c = (of_char c \<in> {9, 10, 11, 12, 13, 32, 160 :: nat})"

definition trim :: "string \<Rightarrow> string" where
  "trim s = rev (dropWhile isWhiteSpace (rev (dropWhile isWhiteSpace s)))"

text \<open>\<open>String.prototype.toLowerCase\<close> on Latin-1: \<open>A\<close>--\<open>Z\<close> and the accented capitals
  \<open>0xC0\<close>--\<open>0xDE\<close> (without the multiplication sign \<open>0xD7\<close>) move up by 32.\<close>

definition toLowerChar :: "char \<Rightarrow> char" where
  "toLowerChar c =
     (let n = (of_char c :: nat)
      in if (65 \<le> n \<and> n \<le> 90) \<or> (192 \<le> n \<and> n \<le> 222 \<and> n \<noteq> 215)
         then char_of (n + 32) else c)"

definition toLowerCase :: "string \<Rightarrow> string" where
  "toLowerCase s = map toLowerChar s"

text \<open>\<open>s.includes(q)\<close>: \<open>q\<close> occurs in \<open>s\<close> as a contiguous run.\<close>

fun includes_str :: "string \<Rightarrow> string \<Rightarrow> bool" where
  "includes_str [] q = (q = [])"
| "includes_str (c # cs) q = (prefix q (c # cs) \<or> includes_str cs q)"

text \<open>\<open>xs.join(sep)\<close>.\<close>

fun join :: "string \<Rightarrow> string list \<Rightarrow> string" where
  "join sep [] = []"
| "join sep [x] = x"
| "join sep (x # y # ys) = x @ sep @ join sep (y # ys)"

text \<open>\<open>email.split("@")[0]\<close>: the part before the first \<open>@\<close>, the whole string when
  there is none.\<close>

definition split_at_first :: "string \<Rightarrow> string" where
  "split_at_first email = takeWhile (\<lambda>c. c \<noteq> CHR ''@'') email"

subsection \<open>Numbers\<close>

datatype number = Num rat | NaN | PosInfinity | NegInfinity

text \<open>\<open>Math.round\<close>: the nearest integer, a tie going up.\<close>

definition Math_round :: "rat \<Rightarrow> int" where
  "Math_round x = \<lfloor>x + 1 / 2\<rfloor>"

text \<open>The \<open>/\<close> of JavaScript on finite operands: \<open>0 / 0\<close> is \<open>NaN\<close>, any other division
  by zero an infinity.\<close>

definition js_div :: "rat \<Rightarrow> rat \<Rightarrow> number" where
  "js_div a b =
     (if b = 0 then (if a = 0 then NaN else if 0 < a then PosInfinity else NegInfinity)
      else Num (a / b))"

fun Math_round_number :: "number \<Rightarrow> number" where
  "Math_round_number (Num x) = Num (of_int (Math_round x))"
| "Math_round_number n = n"

subsection \<open>Entities\<close>

datatype status = Draft | Active | Completed | Archived

datatype priority = High | Medium | Low

datatype role = Admin | Member

record user =
  u_id :: string
  u_name :: string
  u_email :: string
  u_role :: role
  u_createdAt :: int

record guest =
  g_id :: string
  g_name :: string
  g_company :: "string option"
  g_email :: "string option"
  g_bio :: "string option"
  g_socials :: "string option"
  g_notes :: "string option"
  g_photoDataUrl :: "string option"
  g_plannedQuestions :: "string option"
  g_topics :: "string option"
  g_createdAt :: int

record checklist =
  research :: bool
  questions :: bool
  equipment :: bool
  thumbnails :: bool

record project =
  pid :: string
  title :: string
  series :: string
  episodeNumber :: int
  description :: "string option"
  beforeNotes :: "string option"
  afterNotes :: "string option"
  status :: status
  priority :: priority
  tags :: "string list"
  scheduledRecordAt :: "string option"
  scheduledPublishAt :: "string option"
  durationEstimateMin :: "int option"
  guestId :: "string option"
  checklist :: checklist
  progressPct :: int
  createdAt :: int
  updatedAt :: int

section \<open>Progress calculator\<close>

text \<open>
  \<^verbatim>\<open>
  const calcProgress = (c: Checklist) => {
    const done = [c.research, c.questions, c.equipment, c.thumbnails].filter(Boolean).length;
    return Math.round((done / 4) * 100);
  };
  \<close>
\<close>

definition calcProgress :: "checklist \<Rightarrow> int" where
  "calcProgress c =
     (let done = length (filter (\<lambda>b. b) [research c, questions c, equipment c, thumbnails c])
      in Math_round ((of_nat done / 4) * 100))"

text \<open>The specification's \<open>trueCount\<close>: how many of the four fields are true.\<close>

definition trueCount :: "checklist \<Rightarrow> nat" where
  "trueCount c =
     of_bool (research c) + of_bool (questions c) + of_bool (equipment c)
       + of_bool (thumbnails c)"

section \<open>Sequence allocator\<close>

text \<open>
  \<^verbatim>\<open>
  function nextEpisodeNumber(series: string) {
    const map = load<Record<string, number>>(LS_KEYS.seqMap, {});
    const current = (map[series] || 0) + 1;
    map[series] = current;
    save(LS_KEYS.seqMap, map);
    return current;
  }
  \<close>
  The map is a plain object: the literal \<open>{}\<close> or what \<open>JSON.parse\<close> returns. Reading
  \<open>map[series]\<close> therefore finds an own property first and, failing that, a property
  inherited from \<open>Object.prototype\<close>; only a name found in neither place reads as
  \<open>undefined\<close>. The values are those the expression can meet.
\<close>

datatype jsval =
    Undefined
  | Number int
  | Str string
  | Obj string \<comment> \<open>a function or object, with the text its conversion to a string gives\<close>

type_synonym seqmap = "string \<rightharpoonup> jsval"

definition nativeFunction :: "string \<Rightarrow> string" where
  "nativeFunction f = ''function '' @ f @ ''() { [native code] }''"

text \<open>The properties every plain object inherits, each with the text of its value
  (as V8 prints a built-in function). \<open>__proto__\<close> is an accessor whose getter returns
  \<open>Object.prototype\<close> itself.\<close>

definition objectPrototype :: "string \<rightharpoonup> string" where
  "objectPrototype = map_of
     [(''constructor'', nativeFunction ''Object''),
      (''hasOwnProperty'', nativeFunction ''hasOwnProperty''),
      (''isPrototypeOf'', nativeFunction ''isPrototypeOf''),
      (''propertyIsEnumerable'', nativeFunction ''propertyIsEnumerable''),
      (''toLocaleString'', nativeFunction ''toLocaleString''),
      (''toString'', nativeFunction ''toString''),
      (''valueOf'', nativeFunction ''valueOf''),
      (''__defineGetter__'', nativeFunction ''__defineGetter__''),
      (''__defineSetter__'', nativeFunction ''__defineSetter__''),
      (''__lookupGetter__'', nativeFunction ''__lookupGetter__''),
      (''__lookupSetter__'', nativeFunction ''__lookupSetter__''),
      (''__proto__'', ''[object Object]'')]"

text \<open>\<open>map[series]\<close>.\<close>

definition getProp :: "seqmap \<Rightarrow> string \<Rightarrow> jsval" where
  "getProp m k =
     (case m k of
        Some v \<Rightarrow> v
      | None \<Rightarrow> (case objectPrototype k of Some t \<Rightarrow> Obj t | None \<Rightarrow> Undefined))"

text \<open>\<open>map[series] = current\<close>: an own property is created or overwritten. The one
  exception is \<open>__proto__\<close> on a map that has no own property of that name (only
  \<open>JSON.parse\<close> creates one): the assignment then runs the inherited setter, which
  ignores a primitive.\<close>

definition setProp :: "seqmap \<Rightarrow> string \<Rightarrow> jsval \<Rightarrow> seqmap" where
  "setProp m k v = (if k = ''__proto__'' \<and> m k = None then m else m(k \<mapsto> v))"

text \<open>\<open>(v || 0) + 1\<close>: a falsy \<open>v\<close> (\<open>undefined\<close>, \<open>0\<close>, the empty string) counts as \<open>0\<close>;
  \<open>+\<close> adds numbers and concatenates as soon as one operand is not a number.\<close>

fun or0_plus1 :: "jsval \<Rightarrow> jsval" where
  "or0_plus1 Undefined = Number 1"
| "or0_plus1 (Number n) = Number (n + 1)"
| "or0_plus1 (Str s) = (if s = [] then Number 1 else Str (s @ ''1''))"
| "or0_plus1 (Obj t) = Str (t @ ''1'')"

text \<open>The persistent store, as far as the allocator uses it: the item under
  \<open>LS_KEYS.seqMap\<close> (\<open>None\<close> when it is absent or does not parse), and whether
  \<open>localStorage.setItem\<close> succeeds; \<open>save\<close> swallows its failure.\<close>

record store =
  seqMapItem :: "seqmap option"
  writable :: bool

definition load_seqMap :: "store \<Rightarrow> seqmap" where
  "load_seqMap st = (case seqMapItem st of None \<Rightarrow> Map.empty | Some m \<Rightarrow> m)"

definition save_seqMap :: "seqmap \<Rightarrow> store \<Rightarrow> store" where
  "save_seqMap m st = (if writable st then st\<lparr>seqMapItem := Some m\<rparr> else st)"

definition nextEpisodeNumber :: "string \<Rightarrow> store \<Rightarrow> jsval \<times> store" where
  "nextEpisodeNumber ser st =
     (let m = load_seqMap st;
          current = or0_plus1 (getProp m ser);
          m' = setProp m ser current
      in (current, save_seqMap m' st))"

text \<open>Calls in sequence: the results in call order, and the store left behind.\<close>

fun allocate :: "string list \<Rightarrow> store \<Rightarrow> jsval list \<times> store" where
  "allocate [] st = ([], st)"
| "allocate (s # ss) st =
     (let (v, st') = nextEpisodeNumber s st;
          (vs, st'') = allocate ss st'
      in (v # vs, st''))"

text \<open>The store the smoke test starts from: \<open>save(LS_KEYS.seqMap, {})\<close>.\<close>

definition emptyStore :: store where
  "emptyStore = \<lparr>seqMapItem = Some Map.empty, writable = True\<rparr>"

text \<open>A store that holds no sequence map and takes no write: \<open>setItem\<close> throws (the
  quota is used up, or storage is disabled) and \<open>save\<close> swallows it.\<close>

definition fullStore :: store where
  "fullStore = \<lparr>seqMapItem = None, writable = False\<rparr>"

text \<open>The stored counter of a series is \<open>k\<close>; a series with no entry counts as \<open>0\<close>.\<close>

definition tracks :: "store \<Rightarrow> string \<Rightarrow> int \<Rightarrow> bool" where
  "tracks st s k =
     (load_seqMap st s = Some (Number k) \<or> (load_seqMap st s = None \<and> k = 0))"

section \<open>Dashboard aggregates\<close>

text \<open>
  \<^verbatim>\<open>
  const active = projects.filter(p=>p.status!=="archived");
  const completed = projects.filter(p=>p.status==="completed");
  const avgProgress = Math.round((active.reduce((sum,p)=>sum+p.progressPct,0)
                                  / Math.max(1, active.length)));
  ...
  <Stat label="Active" value={String(active.length)} />
  <Stat label="Completed" value={String(completed.length)} />
  <Stat label="Avg Progress" value={`${isNaN(avgProgress)?0:avgProgress}%`} />
  \<close>
\<close>

record dashboard =
  activeCount :: nat
  completedCount :: nat
  avgProgress :: number
  avgProgressShown :: number

definition Dashboard :: "project list \<Rightarrow> dashboard" where
  "Dashboard ps =
     (let active = filter (\<lambda>p. status p \<noteq> Archived) ps;
          completed = filter (\<lambda>p. status p = Completed) ps;
          avg = Math_round_number
                  (js_div (of_int (foldl (\<lambda>sum p. sum + progressPct p) 0 active))
                          (of_nat (max 1 (length active))))
      in \<lparr>activeCount = length active,
          completedCount = length completed,
          avgProgress = avg,
          avgProgressShown = (if avg = NaN then Num 0 else avg)\<rparr>)"

text \<open>The specification's mean of a non-empty list of percentages.\<close>

definition mean :: "int list \<Rightarrow> rat" where
  "mean xs = of_int (sum_list xs) / of_nat (length xs)"

section \<open>Project filter and sort\<close>

text \<open>
  \<open>Array.prototype.sort(cmp)\<close> is stable, and for a consistent comparator the language
  fixes its result: the elements in ascending order of \<open>cmp\<close>, equal ones in their
  original order. The algorithm is the engine's own; a stable insertion sort computes
  the same list. \<open>cmp x y \<le> 0\<close> leaves \<open>x\<close> before \<open>y\<close>.
\<close>

fun insert_cmp :: "('a \<Rightarrow> 'a \<Rightarrow> int) \<Rightarrow> 'a \<Rightarrow> 'a list \<Rightarrow> 'a list" where
  "insert_cmp cmp x [] = [x]"
| "insert_cmp cmp x (y # ys) =
     (if cmp x y \<le> 0 then x # y # ys else y # insert_cmp cmp x ys)"

definition Array_sort :: "('a \<Rightarrow> 'a \<Rightarrow> int) \<Rightarrow> 'a list \<Rightarrow> 'a list" where
  "Array_sort cmp xs = foldr (insert_cmp cmp) xs []"

text \<open>
  \<open>a.localeCompare(b)\<close> is negative, zero or positive as the collation of the host puts
  \<open>a\<close> before, level with or after \<open>b\<close>. Which strings it orders how is the platform's
  and the locale's choice (the default one follows the Unicode collation algorithm:
  letters compare without regard to case first, and some characters are ignored), so
  the collation is a parameter. The language requires it to be a consistent
  comparator, and lets it return zero for two different strings.
\<close>

type_synonym collation = "string \<Rightarrow> string \<Rightarrow> int"

definition consistent :: "collation \<Rightarrow> bool" where
  "consistent lc =
     ((\<forall>a b. lc a b < 0 \<longleftrightarrow> 0 < lc b a)
      \<and> (\<forall>a b c. lc a b \<le> 0 \<and> lc b c \<le> 0 \<longrightarrow> lc a c \<le> 0))"

datatype sortKey = ByUpdatedAt | ByProgress | ByEpisode

text \<open>
  \<^verbatim>\<open>
  const filtered = React.useMemo(()=>{
    let list = [...projects];
    if (statusFilter!=="all") list = list.filter(p=>p.status===statusFilter);
    if (priorityFilter!=="all") list = list.filter(p=>p.priority===priorityFilter);
    if (query.trim()) {
      const q = query.toLowerCase();
      list = list.filter(p => p.title.toLowerCase().includes(q)
        || (p.description||"").toLowerCase().includes(q)
        || p.tags.join(" ").toLowerCase().includes(q)
        || p.series.toLowerCase().includes(q));
    }
    if (sortKey === "updatedAt") list.sort((a,b)=>b.updatedAt - a.updatedAt);
    if (sortKey === "progress") list.sort((a,b)=>b.progressPct - a.progressPct);
    if (sortKey === "episode")  list.sort((a,b)=>{
      if (a.series !== b.series) return a.series.localeCompare(b.series);
      return a.episodeNumber - b.episodeNumber;
    });
    return list;
  }, [projects, statusFilter, priorityFilter, query, sortKey]);
  \<close>
  A filter set to \<open>"all"\<close> is \<open>None\<close>; \<open>lc\<close> is the collation behind \<open>localeCompare\<close>.
\<close>

definition matchesQuery :: "string \<Rightarrow> project \<Rightarrow> bool" where
  "matchesQuery q p =
     (includes_str (toLowerCase (title p)) q
      \<or> includes_str (toLowerCase (case description p of None \<Rightarrow> [] | Some d \<Rightarrow> d)) q
      \<or> includes_str (toLowerCase (join '' '' (tags p))) q
      \<or> includes_str (toLowerCase (series p)) q)"

definition episodeCmp :: "collation \<Rightarrow> project \<Rightarrow> project \<Rightarrow> int" where
  "episodeCmp lc a b =
     (if series a \<noteq> series b then lc (series a) (series b)
      else episodeNumber a - episodeNumber b)"

definition filtered ::
  "collation \<Rightarrow> project list \<Rightarrow> status option \<Rightarrow> priority option \<Rightarrow> string \<Rightarrow> sortKey
     \<Rightarrow> project list"
where
  "filtered lc ps statusFilter priorityFilter query sk =
     (let l0 = ps;
          l1 = (case statusFilter of None \<Rightarrow> l0
                | Some s \<Rightarrow> filter (\<lambda>p. status p = s) l0);
          l2 = (case priorityFilter of None \<Rightarrow> l1
                | Some r \<Rightarrow> filter (\<lambda>p. priority p = r) l1);
          l3 = (if trim query \<noteq> [] then filter (matchesQuery (toLowerCase query)) l2
                else l2)
      in case sk of
           ByUpdatedAt \<Rightarrow> Array_sort (\<lambda>a b. updatedAt b - updatedAt a) l3
         | ByProgress \<Rightarrow> Array_sort (\<lambda>a b. progressPct b - progressPct a) l3
         | ByEpisode \<Rightarrow> Array_sort (episodeCmp lc) l3)"

text \<open>The specification's words for the text a query is matched against: the
  concatenation of title, description, space-joined tag list and series name.\<close>

definition concatenation_spec :: "project \<Rightarrow> string" where
  "concatenation_spec p =
     title p @ (case description p of None \<Rightarrow> [] | Some d \<Rightarrow> d) @ join '' '' (tags p)
       @ series p"

definition keeps_spec :: "status \<Rightarrow> priority \<Rightarrow> string \<Rightarrow> project \<Rightarrow> bool" where
  "keeps_spec s r query p =
     (status p = s \<and> priority p = r
      \<and> sublist (toLowerCase query) (toLowerCase (concatenation_spec p)))"

text \<open>A query that \<open>query.trim()\<close> reduces to the empty string.\<close>

definition blank :: "string \<Rightarrow> bool" where
  "blank s = list_all isWhiteSpace s"

text \<open>The query occurs, case-insensitively, in one of the four searched fields.\<close>

definition fieldMatch :: "string \<Rightarrow> project \<Rightarrow> bool" where
  "fieldMatch query p =
     (sublist (toLowerCase query) (toLowerCase (title p))
      \<or> sublist (toLowerCase query)
           (toLowerCase (case description p of None \<Rightarrow> [] | Some d \<Rightarrow> d))
      \<or> sublist (toLowerCase query) (toLowerCase (join '' '' (tags p)))
      \<or> sublist (toLowerCase query) (toLowerCase (series p)))"

text \<open>A project passes the active filters and, unless the query is blank, the search.\<close>

definition passes :: "status option \<Rightarrow> priority option \<Rightarrow> string \<Rightarrow> project \<Rightarrow> bool" where
  "passes statusFilter priorityFilter query p =
     ((case statusFilter of None \<Rightarrow> True | Some s \<Rightarrow> status p = s)
      \<and> (case priorityFilter of None \<Rightarrow> True | Some r \<Rightarrow> priority p = r)
      \<and> (blank query \<or> fieldMatch query p))"

text \<open>The composite key of the episode order: series name first, in the order of
  the collation, episode number second.\<close>

definition episodeKeyLe :: "collation \<Rightarrow> project \<Rightarrow> project \<Rightarrow> bool" where
  "episodeKeyLe lc a b =
     (lc (series a) (series b) < 0
      \<or> (series a = series b \<and> episodeNumber a \<le> episodeNumber b))"

text \<open>
  A collation for the examples, a fragment of the default one: it ignores the soft
  hyphen \<open>U+00AD\<close>, compares without regard to case first, and between strings that
  differ in case only puts the lower case first.
\<close>

definition unhyphened :: "string \<Rightarrow> string" where
  "unhyphened s = filter (\<lambda>c. c \<noteq> CHR 0xAD) s"

definition primaryKey :: "string \<Rightarrow> string" where
  "primaryKey s = toLowerCase (unhyphened s)"

definition example_collation :: collation where
  "example_collation a b =
     (if primaryKey a < primaryKey b then - 1
      else if primaryKey b < primaryKey a then 1
      else if unhyphened b < unhyphened a then - 1
      else if unhyphened a < unhyphened b then 1
      else 0)"

section \<open>Saving a project\<close>

text \<open>
  \<^verbatim>\<open>
  const openEdit = (p: Project) => { setDraft({...p}); setShowForm(true); };

  const saveDraft = () => {
    if (!draft) return;
    const copy = {...draft};
    copy.progressPct = calcProgress(copy.checklist);
    copy.updatedAt = now();
    setProjects(prev => prev.some(p=>p.id===copy.id)
        ? prev.map(p=>p.id===copy.id?copy:p) : [copy, ...prev]);
    setShowForm(false); setDraft(null);
  };
  \<close>
\<close>

record projects_page =
  pp_projects :: "project list"
  pp_draft :: "project option"
  pp_showForm :: bool

definition openEdit :: "project \<Rightarrow> projects_page \<Rightarrow> projects_page" where
  "openEdit p st = st\<lparr>pp_draft := Some p, pp_showForm := True\<rparr>"

definition saved_copy :: "int \<Rightarrow> project \<Rightarrow> project" where
  "saved_copy t d = d\<lparr>progressPct := calcProgress (checklist d), updatedAt := t\<rparr>"

definition saveDraft :: "int \<Rightarrow> projects_page \<Rightarrow> projects_page" where
  "saveDraft t st =
     (case pp_draft st of
        None \<Rightarrow> st
      | Some d \<Rightarrow>
          (let copy = saved_copy t d;
               prev = pp_projects st
           in st\<lparr>pp_projects :=
                    (if list_ex (\<lambda>p. pid p = pid copy) prev
                     then map (\<lambda>p. if pid p = pid copy then copy else p) prev
                     else copy # prev),
                 pp_showForm := False,
                 pp_draft := None\<rparr>))"

section \<open>Users and guests\<close>

text \<open>
  \<^verbatim>\<open>
  const handleLogin = (email: string, name?: string) => {
    if (!email.trim()) return alert('Email required');
    let u = users.find(u => u.email.toLowerCase() === email.toLowerCase());
    if (!u) { u = { id: uid("usr"), name: name || email.split("@")[0], email,
                    role: "member", createdAt: now() };
              setUsers(prev => [...prev, u!]); }
    setSession(u.id); window.location.reload();
  };
  \<close>
\<close>

record app =
  app_users :: "user list"
  app_session :: "string option"

definition name_or :: "string option \<Rightarrow> string \<Rightarrow> string" where
  \<comment> \<open>\<open>name || d\<close>: an absent or empty name is falsy\<close>
  "name_or n d = (case n of None \<Rightarrow> d | Some x \<Rightarrow> if x = [] then d else x)"

definition handleLogin ::
  "string \<Rightarrow> int \<Rightarrow> string \<Rightarrow> string option \<Rightarrow> app \<Rightarrow> app \<times> string option"
where
  "handleLogin fresh t email_in name_in st =
     (if trim email_in = [] then (st, Some ''Email required'')
      else
        (case find (\<lambda>u. toLowerCase (u_email u) = toLowerCase email_in) (app_users st) of
           Some u \<Rightarrow> (st\<lparr>app_session := Some (u_id u)\<rparr>, None)
         | None \<Rightarrow>
             (let u = \<lparr>u_id = fresh, u_name = name_or name_in (split_at_first email_in),
                       u_email = email_in, u_role = Member, u_createdAt = t\<rparr>
              in (st\<lparr>app_users := app_users st @ [u], app_session := Some (u_id u)\<rparr>,
                  None))))"

text \<open>
  \<^verbatim>\<open>
  const add = () => {
    if (!name.trim() || !email.trim()) return;
    const exists = users.some(u=>u.email.toLowerCase()===email.toLowerCase());
    if (exists) return alert("Email already exists.");
    const u: User = { id: uid("usr"), name, email, role: "member", createdAt: now() };
    setUsers(prev => [...prev, u]); setName(""); setEmail(""); };
  \<close>
\<close>

record team_page =
  tp_users :: "user list"
  tp_name :: string
  tp_email :: string

definition TeamPage_add :: "string \<Rightarrow> int \<Rightarrow> team_page \<Rightarrow> team_page \<times> string option" where
  "TeamPage_add fresh t st =
     (if trim (tp_name st) = [] \<or> trim (tp_email st) = [] then (st, None)
      else if list_ex (\<lambda>u. toLowerCase (u_email u) = toLowerCase (tp_email st)) (tp_users st)
      then (st, Some ''Email already exists.'')
      else
        (let u = \<lparr>u_id = fresh, u_name = tp_name st, u_email = tp_email st,
                  u_role = Member, u_createdAt = t\<rparr>
         in (st\<lparr>tp_users := tp_users st @ [u], tp_name := [], tp_email := []\<rparr>, None)))"

text \<open>
  \<^verbatim>\<open>
  const save = () => { if(!g) return; if(!g.name.trim()) return alert("Name required");
    setGuests(prev=> prev.some(x=>x.id===g.id)? prev.map(x=>x.id===g.id?g:x) : [g, ...prev]);
    setShow(false); setG(null); };
  \<close>
\<close>

record guests_page =
  gp_guests :: "guest list"
  gp_g :: "guest option"
  gp_show :: bool

definition GuestsPage_save :: "guests_page \<Rightarrow> guests_page \<times> string option" where
  "GuestsPage_save st =
     (case gp_g st of
        None \<Rightarrow> (st, None)
      | Some g \<Rightarrow>
          if trim (g_name g) = [] then (st, Some ''Name required'')
          else
            (st\<lparr>gp_guests :=
                   (if list_ex (\<lambda>x. g_id x = g_id g) (gp_guests st)
                    then map (\<lambda>x. if g_id x = g_id g then g else x) (gp_guests st)
                    else g # gp_guests st),
                gp_show := False,
                gp_g := None\<rparr>, None))"

section \<open>Example data\<close>

text \<open>A project titled \<open>Alpha\<close> in series \<open>Main\<close>, with the given identifier, status
  and stored percentage.\<close>

definition example_project :: "string \<Rightarrow> status \<Rightarrow> int \<Rightarrow> project" where
  "example_project i s pct =
     \<lparr>pid = i, title = ''Alpha'', series = ''Main'', episodeNumber = 1,
      description = None, beforeNotes = None, afterNotes = None,
      status = s, priority = High, tags = [],
      scheduledRecordAt = None, scheduledPublishAt = None, durationEstimateMin = None,
      guestId = None,
      checklist = \<lparr>research = False, questions = False, equipment = False,
                   thumbnails = False\<rparr>,
      progressPct = pct, createdAt = 0, updatedAt = 0\<rparr>"

text \<open>Scenario D of the specification: one project of each status.\<close>

definition scenario_D :: "project list" where
  "scenario_D =
     [example_project ''a'' Draft 25, example_project ''b'' Active 50,
      example_project ''c'' Completed 100, example_project ''d'' Archived 0]"

text \<open>Two projects in progress, at 25 and 50 per cent, and an archived one.\<close>

definition example_mixed :: "project list" where
  "example_mixed =
     [example_project ''a'' Draft 25, example_project ''b'' Active 50,
      example_project ''d'' Archived 0]"

definition example_draft :: "string \<Rightarrow> project" where
  "example_draft i =
     (example_project i Active 0)
       \<lparr>checklist := \<lparr>research = True, questions = False, equipment = False,
                      thumbnails = False\<rparr>\<rparr>"

definition example_page :: "string \<Rightarrow> projects_page" where
  "example_page i =
     \<lparr>pp_projects = [example_project ''a'' Draft 0, example_project ''b'' Active 0],
      pp_draft = Some (example_draft i), pp_showForm = True\<rparr>"

definition example_user :: "string \<Rightarrow> string \<Rightarrow> string \<Rightarrow> role \<Rightarrow> user" where
  "example_user i n e r = \<lparr>u_id = i, u_name = n, u_email = e, u_role = r, u_createdAt = 0\<rparr>"

definition example_team :: "string \<Rightarrow> string \<Rightarrow> team_page" where
  "example_team n e =
     \<lparr>tp_users = [example_user ''usr_1'' ''Admin'' ''admin@example.com'' Admin],
      tp_name = n, tp_email = e\<rparr>"

definition example_guest :: "string \<Rightarrow> string \<Rightarrow> guest" where
  "example_guest i n =
     \<lparr>g_id = i, g_name = n, g_company = None, g_email = None, g_bio = None,
      g_socials = None, g_notes = None, g_photoDataUrl = None,
      g_plannedQuestions = None, g_topics = None, g_createdAt = 0\<rparr>"

definition example_guests :: "string \<Rightarrow> guests_page" where
  "example_guests n =
     \<lparr>gp_guests = [example_guest ''gst_1'' ''Ada''],
      gp_g = Some (example_guest ''gst_2'' n), gp_show = True\<rparr>"

definition example_app :: app where
  "example_app =
     \<lparr>app_users = [example_user ''usr_1'' ''Admin'' ''admin@example.com'' Admin],
      app_session = None\<rparr>"

definition example_episode :: "string \<Rightarrow> string \<Rightarrow> int \<Rightarrow> project" where
  "example_episode i s n = (example_project i Draft 0)\<lparr>series := s, episodeNumber := n\<rparr>"

definition example_episodes :: "project list" where
  "example_episodes =
     [example_episode ''a'' ''Main'' 2, example_episode ''b'' ''Guest Series'' 1,
      example_episode ''c'' ''Main'' 3, example_episode ''d'' ''Main'' 1]"

text \<open>Two series whose names differ in the case of the first letter.\<close>

definition example_cased :: "project list" where
  "example_cased = [example_episode ''a'' ''Banana'' 1, example_episode ''b'' ''apple'' 1]"

text \<open>Two series whose names differ by a soft hyphen only, which does not show.\<close>

definition example_hyphened :: "project list" where
  "example_hyphened =
     [example_episode ''a'' ''Main'' 2,
      example_episode ''b'' (''Ma'' @ [CHR 0xAD] @ ''in'') 1,
      example_episode ''c'' ''Main'' 1]"

text \<open>The two projects of the smoke test in \<open>runSmokeTests\<close>.\<close>

definition smoke_alpha :: project where
  "smoke_alpha =
     \<lparr>pid = ''a'', title = ''Alpha'', series = ''Main'', episodeNumber = 1,
      description = Some [], beforeNotes = Some [], afterNotes = Some [],
      status = Draft, priority = High, tags = [''news''],
      scheduledRecordAt = None, scheduledPublishAt = None, durationEstimateMin = None,
      guestId = None,
      checklist = \<lparr>research = True, questions = False, equipment = False,
                   thumbnails = False\<rparr>,
      progressPct = 25, createdAt = 0, updatedAt = 0\<rparr>"

definition smoke_beta :: project where
  "smoke_beta =
     \<lparr>pid = ''b'', title = ''Beta'', series = ''Main'', episodeNumber = 2,
      description = Some [], beforeNotes = Some [], afterNotes = Some [],
      status = Active, priority = Medium, tags = [''tech''],
      scheduledRecordAt = None, scheduledPublishAt = None, durationEstimateMin = None,
      guestId = None,
      checklist = \<lparr>research = True, questions = True, equipment = False,
                   thumbnails = False\<rparr>,
      progressPct = 50, createdAt = 0, updatedAt = 0\<rparr>"

section \<open>Properties of the progress calculator\<close>

lemma Math_round_of_int: "Math_round (of_int k) = k"
  unfolding Math_round_def by linarith

lemma quarter_percent: "of_nat n / 4 * 100 = (of_int (25 * int n) :: rat)"
  by simp

lemma calcProgress_eq:
  "calcProgress c =
     25 * int (length (filter (\<lambda>b. b) [research c, questions c, equipment c, thumbnails c]))"
  unfolding calcProgress_def Let_def quarter_percent Math_round_of_int ..

lemma trueCount_eq:
  "trueCount c = length (filter (\<lambda>b. b) [research c, questions c, equipment c, thumbnails c])"
  by (simp add: trueCount_def)

lemma calcProgress_trueCount: "calcProgress c = 25 * int (trueCount c)"
  by (simp only: calcProgress_eq trueCount_eq)

lemma round_percent_trueCount:
  "Math_round (100 * of_nat (trueCount c) / 4) = 25 * int (trueCount c)"
proof -
  have "(100 * of_nat (trueCount c) / 4 :: rat) = of_int (25 * int (trueCount c))"
    by simp
  then show ?thesis by (simp only: Math_round_of_int)
qed

text \<open>
  Claim C2. For every checklist, \<open>calcProgress\<close> is \<open>round(100 * trueCount / 4)\<close>, which is
  \<open>25 * trueCount\<close>, hence one of 0, 25, 50, 75, 100. The function is total: it has no
  failing branch.
\<close>

theorem calcProgress_spec:
  "calcProgress c = Math_round (100 * of_nat (trueCount c) / 4)
   \<and> calcProgress c = 25 * int (trueCount c)
   \<and> calcProgress c \<in> {0, 25, 50, 75, 100}"
proof -
  have "trueCount c \<in> {0, 1, 2, 3, 4}"
    by (simp add: trueCount_def)
  then have "calcProgress c \<in> {0, 25, 50, 75, 100}"
    unfolding calcProgress_trueCount by auto
  with calcProgress_trueCount round_percent_trueCount show ?thesis by simp
qed

lemma calcProgress_scenario_C:
  "calcProgress \<lparr>research = True, questions = False, equipment = False, thumbnails = False\<rparr>
     = 25"
  by (simp add: calcProgress_eq)

section \<open>Properties of the sequence allocator\<close>

lemma nextEpisodeNumber_writable:
  "writable (snd (nextEpisodeNumber x st)) = writable st"
  by (simp add: nextEpisodeNumber_def save_seqMap_def Let_def)

lemma nextEpisodeNumber_same:
  assumes "writable st" "objectPrototype s = None" "tracks st s k"
  shows "fst (nextEpisodeNumber s st) = Number (k + 1)"
    and "tracks (snd (nextEpisodeNumber s st)) s (k + 1)"
  using assms
  by (auto simp: tracks_def nextEpisodeNumber_def save_seqMap_def load_seqMap_def
      getProp_def setProp_def objectPrototype_def Let_def)

lemma nextEpisodeNumber_other:
  assumes "x \<noteq> s" "tracks st s k"
  shows "tracks (snd (nextEpisodeNumber x st)) s k"
  using assms
  by (auto simp: tracks_def nextEpisodeNumber_def save_seqMap_def load_seqMap_def
      setProp_def Let_def)

lemma upt_shift:
  "map (\<lambda>i. Number (k + 1 + int i)) [1..<Suc n]
     = map (\<lambda>i. Number (k + int i)) [2..<Suc (Suc n)]"
proof -
  have "[2..<Suc (Suc n)] = map Suc [1..<Suc n]"
    by (simp add: map_Suc_upt numeral_2_eq_2)
  then show ?thesis by (simp add: comp_def add.assoc add.commute)
qed

text \<open>
  A series whose name is not a property of \<open>Object.prototype\<close>, in a store that takes
  writes: whatever other series are served in between, the calls for \<open>s\<close> return the
  numbers after its stored counter, one by one.
\<close>

lemma allocate_series:
  assumes "writable st" "objectPrototype s = None" "tracks st s k"
  shows "map snd (filter (\<lambda>c. fst c = s) (zip ss (fst (allocate ss st))))
         = map (\<lambda>i. Number (k + int i)) [1..<Suc (count_list ss s)]"
  using assms
proof (induction ss arbitrary: st k)
  case Nil
  then show ?case by simp
next
  case (Cons x ss)
  obtain v st' where step: "nextEpisodeNumber x st = (v, st')"
    by (cases "nextEpisodeNumber x st")
  obtain vs st'' where rest: "allocate ss st' = (vs, st'')"
    by (cases "allocate ss st'")
  have w: "writable st'"
    using nextEpisodeNumber_writable[of x st] step Cons.prems(1) by simp
  show ?case
  proof (cases "x = s")
    case True
    have v: "v = Number (k + 1)" and t: "tracks st' s (k + 1)"
      using nextEpisodeNumber_same[OF Cons.prems] step True by simp_all
    have "map snd (filter (\<lambda>c. fst c = s) (zip ss (fst (allocate ss st'))))
         = map (\<lambda>i. Number (k + 1 + int i)) [1..<Suc (count_list ss s)]"
      by (rule Cons.IH[OF w Cons.prems(2) t])
    then have ih: "map snd (filter (\<lambda>c. fst c = s) (zip ss vs))
         = map (\<lambda>i. Number (k + int i)) [2..<Suc (Suc (count_list ss s))]"
      using rest upt_shift by simp
    have "[1..<Suc (Suc (count_list ss s))] = 1 # [2..<Suc (Suc (count_list ss s))]"
      by (simp add: upt_rec numeral_2_eq_2)
    then show ?thesis using True step rest v ih by simp
  next
    case False
    have t: "tracks st' s k"
      using nextEpisodeNumber_other[OF False Cons.prems(3)] step by simp
    have "map snd (filter (\<lambda>c. fst c = s) (zip ss (fst (allocate ss st'))))
         = map (\<lambda>i. Number (k + int i)) [1..<Suc (count_list ss s)]"
      by (rule Cons.IH[OF w Cons.prems(2) t])
    then show ?thesis using False step rest by simp
  qed
qed

lemma allocate_length: "length (fst (allocate ss st)) = length ss"
  by (induction ss arbitrary: st) (auto simp: split_def Let_def)

lemma count_list_replicate: "count_list (replicate n s) s = n"
  by (induction n) simp_all

lemma allocate_repeat:
  assumes "writable st" "objectPrototype s = None" "load_seqMap st s = None"
  shows "fst (allocate (replicate n s) st) = map (\<lambda>i. Number (int i)) [1..<Suc n]"
proof -
  have t: "tracks st s 0" using assms(3) by (simp add: tracks_def)
  let ?vs = "fst (allocate (replicate n s) st)"
  have "filter (\<lambda>c. fst c = s) (zip (replicate n s) ?vs) = zip (replicate n s) ?vs"
    by (rule filter_True) (auto dest: set_zip_leftD)
  moreover have "map snd (zip (replicate n s) ?vs) = ?vs"
    by (simp add: allocate_length)
  ultimately show ?thesis
    using allocate_series[OF assms(1,2) t, of "replicate n s"]
    by (simp add: count_list_replicate del: upt_Suc)
qed

lemma allocate_scenario_A:
  "fst (allocate [''Main'', ''Main'', ''Guest Series''] emptyStore)
     = [Number 1, Number 2, Number 1]"
  by (simp add: nextEpisodeNumber_def emptyStore_def load_seqMap_def save_seqMap_def
      getProp_def setProp_def objectPrototype_def Let_def)

text \<open>
  Claim C1, as amended. In a store that takes the writes, for a series whose name is
  not one of the property names a plain object inherits, and for which the map has no
  entry: \<open>n\<close> calls in a row return \<open>1, 2, ..., n\<close>, and in any sequence of calls, for
  whatever series, the calls for this series return \<open>1, 2, ...\<close> in order. Two such
  series therefore count independently, each from 1.
\<close>

theorem nextEpisodeNumber_sequence:
  "writable st \<and> objectPrototype s = None \<and> load_seqMap st s = None \<longrightarrow>
     fst (allocate (replicate n s) st) = map (\<lambda>i. Number (int i)) [1..<Suc n]
     \<and> map snd (filter (\<lambda>c. fst c = s) (zip ss (fst (allocate ss st))))
         = map (\<lambda>i. Number (int i)) [1..<Suc (count_list ss s)]"
  (is "_ \<longrightarrow> ?row \<and> ?among")
proof
  assume a: "writable st \<and> objectPrototype s = None \<and> load_seqMap st s = None"
  then have t: "tracks st s 0" by (simp add: tracks_def)
  have "map snd (filter (\<lambda>c. fst c = s) (zip ss (fst (allocate ss st))))
         = map (\<lambda>i. Number (0 + int i)) [1..<Suc (count_list ss s)]"
    using a t by (intro allocate_series) simp_all
  then show "?row \<and> ?among"
    using a allocate_repeat[of st s n] by simp
qed

text \<open>Scenario A of the specification, and three calls for one series.\<close>

theorem nextEpisodeNumber_sequence_witness:
  "writable emptyStore \<and> objectPrototype ''Main'' = None
   \<and> load_seqMap emptyStore ''Main'' = None
   \<and> fst (allocate [''Main'', ''Main'', ''Main''] emptyStore)
       = [Number 1, Number 2, Number 3]
   \<and> fst (allocate [''Main'', ''Main'', ''Guest Series''] emptyStore)
       = [Number 1, Number 2, Number 1]"
  using nextEpisodeNumber_sequence[of emptyStore "''Main''" 3
      "[''Main'', ''Main'', ''Guest Series'']"]
  by (simp add: nextEpisodeNumber_def emptyStore_def load_seqMap_def save_seqMap_def
      getProp_def setProp_def objectPrototype_def Let_def)

text \<open>
  Without the first condition the sequence does not advance: the allocator keeps no
  counter of its own and reads the store on every call, so when the write is lost the
  next call returns the same number.
\<close>

theorem nextEpisodeNumber_unwritable_counterexample:
  "load_seqMap fullStore ''Main'' = None
   \<and> fst (allocate (replicate 2 ''Main'') fullStore) = [Number 1, Number 1]
   \<and> fst (allocate (replicate 2 ''Main'') fullStore)
       \<noteq> map (\<lambda>i. Number (int i)) [1..<Suc 2]"
  by (simp add: nextEpisodeNumber_def fullStore_def load_seqMap_def save_seqMap_def
      getProp_def setProp_def objectPrototype_def Let_def numeral_2_eq_2)

text \<open>
  Without the second condition the result is not even a number. The empty map has no
  entry for the series named \<open>constructor\<close>, yet \<open>map[series]\<close> reads the function every
  object inherits under that name, and \<open>+ 1\<close> appends to its text.
\<close>

lemma nextEpisodeNumber_inherited_name:
  "load_seqMap emptyStore ''constructor'' = None
   \<and> fst (allocate [''constructor'', ''constructor''] emptyStore)
       = [Str ''function Object() { [native code] }1'',
          Str ''function Object() { [native code] }11'']"
  by (simp add: nextEpisodeNumber_def emptyStore_def load_seqMap_def save_seqMap_def
      getProp_def setProp_def objectPrototype_def nativeFunction_def Let_def)

section \<open>Properties of the dashboard aggregates\<close>

lemma foldl_progress: "foldl (\<lambda>sum p. sum + progressPct p) a xs = a + sum_list (map progressPct xs)"
  by (induction xs arbitrary: a) simp_all

lemma Dashboard_avgProgress:
  "avgProgress (Dashboard ps) =
     (let active = filter (\<lambda>p. status p \<noteq> Archived) ps
      in Math_round_number (js_div (of_int (sum_list (map progressPct active)))
                                   (of_nat (max 1 (length active)))))"
  by (simp add: Dashboard_def Let_def foldl_progress)

lemma js_div_pos: "0 < b \<Longrightarrow> js_div a b = Num (a / b)"
  by (simp add: js_div_def)

lemma length_filter_status:
  "length (filter (\<lambda>p. P (status p)) ps) = size (filter_mset P (mset (map status ps)))"
proof -
  have "size (filter_mset P (mset (map status ps))) = length (filter P (map status ps))"
    by (metis mset_filter size_mset)
  also have "\<dots> = length (filter (\<lambda>p. P (status p)) ps)"
    by (simp add: filter_map comp_def)
  finally show ?thesis by (rule sym)
qed

text \<open>
  Claim C6. \<open>activeCount\<close> is the number of projects whose status is not archived,
  \<open>completedCount\<close> the number whose status is completed; a list with one project of
  each of the four statuses, in any order, gives 3 and 1.
\<close>

theorem dashboard_counts:
  "activeCount (Dashboard ps) = card {i. i < length ps \<and> status (ps ! i) \<noteq> Archived}
   \<and> completedCount (Dashboard ps) = card {i. i < length ps \<and> status (ps ! i) = Completed}
   \<and> (mset (map status ps) = {#Draft, Active, Completed, Archived#}
        \<longrightarrow> activeCount (Dashboard ps) = 3 \<and> completedCount (Dashboard ps) = 1)"
proof -
  have a: "activeCount (Dashboard ps) = length (filter (\<lambda>p. status p \<noteq> Archived) ps)"
    and c: "completedCount (Dashboard ps) = length (filter (\<lambda>p. status p = Completed) ps)"
    by (simp_all add: Dashboard_def Let_def)
  have d: "activeCount (Dashboard ps) = 3 \<and> completedCount (Dashboard ps) = 1"
    if "mset (map status ps) = {#Draft, Active, Completed, Archived#}"
  proof -
    have "length (filter (\<lambda>p. status p \<noteq> Archived) ps)
            = size (filter_mset (\<lambda>s. s \<noteq> Archived) (mset (map status ps)))"
      and "length (filter (\<lambda>p. status p = Completed) ps)
            = size (filter_mset (\<lambda>s. s = Completed) (mset (map status ps)))"
      using length_filter_status[of "\<lambda>s. s \<noteq> Archived" ps]
        length_filter_status[of "\<lambda>s. s = Completed" ps] by blast+
    then show ?thesis unfolding a c that by simp
  qed
  show ?thesis
    using d by (simp add: a c length_filter_conv_card)
qed

text \<open>
  Claim C7. With at least one project that is not archived, \<open>avgProgress\<close> is the mean
  of their percentages, rounded; with none (an empty collection, or all archived) it
  is exactly 0. The divisor is \<open>max 1 n\<close>, so the quotient is never \<open>NaN\<close>, and the value
  shown is the value computed.
\<close>

theorem avgProgress_guard:
  "(filter (\<lambda>p. status p \<noteq> Archived) ps \<noteq> []
      \<longrightarrow> avgProgress (Dashboard ps)
          = Num (of_int (Math_round (mean (map progressPct (filter (\<lambda>p. status p \<noteq> Archived) ps))))))
   \<and> (list_all (\<lambda>p. status p = Archived) ps \<longrightarrow> avgProgress (Dashboard ps) = Num 0)
   \<and> avgProgress (Dashboard ps) \<noteq> NaN
   \<and> avgProgressShown (Dashboard ps) = avgProgress (Dashboard ps)"
proof -
  let ?active = "filter (\<lambda>p. status p \<noteq> Archived) ps"
  have pos: "(0::rat) < of_nat (max 1 (length ?active))" by simp
  have avg: "avgProgress (Dashboard ps)
      = Num (of_int (Math_round (of_int (sum_list (map progressPct ?active)) / of_nat (max 1 (length ?active)))))"
    unfolding Dashboard_avgProgress Let_def js_div_pos[OF pos] by simp
  have one: "avgProgress (Dashboard ps) = Num (of_int (Math_round (mean (map progressPct ?active))))"
    if "?active \<noteq> []"
  proof -
    have "max 1 (length ?active) = length ?active"
      using that by (cases ?active) simp_all
    then show ?thesis unfolding avg mean_def by simp
  qed
  have two: "avgProgress (Dashboard ps) = Num 0" if "list_all (\<lambda>p. status p = Archived) ps"
  proof -
    have "?active = []" using that by (simp add: list_all_iff filter_empty_conv)
    then show ?thesis unfolding avg using Math_round_of_int[of 0] by simp
  qed
  have three: "avgProgress (Dashboard ps) \<noteq> NaN" unfolding avg by simp
  have four: "avgProgressShown (Dashboard ps) = avgProgress (Dashboard ps)"
    using three by (simp add: Dashboard_def Let_def)
  from one two three four show ?thesis by blast
qed

theorem dashboard_counts_witness:
  "mset (map status scenario_D) = {#Draft, Active, Completed, Archived#}
   \<and> activeCount (Dashboard scenario_D) = 3
   \<and> completedCount (Dashboard scenario_D) = 1"
  using dashboard_counts[of scenario_D]
  by (simp add: scenario_D_def example_project_def)

theorem avgProgress_guard_witness:
  "filter (\<lambda>p. status p \<noteq> Archived) example_mixed \<noteq> []
   \<and> avgProgress (Dashboard example_mixed) = Num 38
   \<and> list_all (\<lambda>p. status p = Archived) [example_project ''d'' Archived 75]
   \<and> avgProgress (Dashboard [example_project ''d'' Archived 75]) = Num 0
   \<and> avgProgress (Dashboard []) = Num 0"
proof -
  have m: "Math_round (mean [25, 50]) = 38"
    by (simp add: mean_def Math_round_def)
  show ?thesis
    using avgProgress_guard[of example_mixed]
      avgProgress_guard[of "[example_project ''d'' Archived 75]"]
      avgProgress_guard[of "[]"] m
    by (simp add: example_mixed_def example_project_def)
qed

section \<open>Properties of saving a project\<close>

lemma trim_empty_iff: "trim s = [] \<longleftrightarrow> blank s"
proof
  assume "blank s"
  then have "\<forall>x\<in>set s. isWhiteSpace x"
    by (simp add: blank_def list_all_iff)
  then have "dropWhile isWhiteSpace s = []"
    using dropWhile_eq_Nil_conv[of isWhiteSpace s] by blast
  then show "trim s = []" by (simp only: trim_def rev.simps dropWhile.simps)
next
  assume t: "trim s = []"
  show "blank s"
  proof (rule ccontr)
    assume "\<not> blank s"
    then have "\<not> (\<forall>x\<in>set s. isWhiteSpace x)"
      by (simp add: blank_def list_all_iff)
    then have ne: "dropWhile isWhiteSpace s \<noteq> []"
      using dropWhile_eq_Nil_conv[of isWhiteSpace s] by blast
    then have "\<not> isWhiteSpace (hd (dropWhile isWhiteSpace s))"
      by (rule hd_dropWhile)
    moreover have "hd (dropWhile isWhiteSpace s) \<in> set (rev (dropWhile isWhiteSpace s))"
      using ne by simp
    ultimately have "dropWhile isWhiteSpace (rev (dropWhile isWhiteSpace s)) \<noteq> []"
      by (auto simp only: dropWhile_eq_Nil_conv)
    then show False using t by (simp add: trim_def)
  qed
qed

lemma saved_copy_fields:
  "pid (saved_copy t d) = pid d" "checklist (saved_copy t d) = checklist d"
  "updatedAt (saved_copy t d) = t" "progressPct (saved_copy t d) = calcProgress (checklist d)"
  by (simp_all add: saved_copy_def)

lemma saveDraft_projects:
  "pp_draft st = Some d \<Longrightarrow>
   pp_projects (saveDraft t st) =
     (if list_ex (\<lambda>p. pid p = pid d) (pp_projects st)
      then map (\<lambda>p. if pid p = pid d then saved_copy t d else p) (pp_projects st)
      else saved_copy t d # pp_projects st)"
  by (simp add: saveDraft_def Let_def saved_copy_fields)

lemma find_map_replace:
  "list_ex (\<lambda>p. f p = k) xs \<Longrightarrow> f c = k \<Longrightarrow>
   find (\<lambda>p. f p = k) (map (\<lambda>p. if f p = k then c else p) xs) = Some c"
  by (induction xs) auto

lemma saveDraft_find:
  "pp_draft st = Some d \<Longrightarrow>
   find (\<lambda>p. pid p = pid d) (pp_projects (saveDraft t st)) = Some (saved_copy t d)"
  by (simp add: saveDraft_projects find_map_replace saved_copy_fields)

lemma saveDraft_members:
  "pp_draft st = Some d \<Longrightarrow> p \<in> set (pp_projects (saveDraft t st)) \<Longrightarrow> pid p = pid d
   \<Longrightarrow> p = saved_copy t d"
  by (auto simp: saveDraft_projects list_ex_iff split: if_splits)

text \<open>
  Claim C3. After a save through \<open>saveDraft\<close>, the record stored under the draft's
  identifier has \<open>progressPct = round(100 * trueCount(checklist) / 4)\<close> and \<open>updatedAt\<close>
  equal to the time of the save, and so has every record of the collection with that
  identifier. Saving it again with the same checklist (whatever else the form changed)
  stores the same \<open>progressPct\<close>, with the new time.
\<close>

theorem saveDraft_progress:
  "pp_draft st = Some d \<longrightarrow>
     (\<exists>p. find (\<lambda>p. pid p = pid d) (pp_projects (saveDraft t st)) = Some p
          \<and> progressPct p = Math_round (100 * of_nat (trueCount (checklist p)) / 4)
          \<and> checklist p = checklist d
          \<and> updatedAt p = t)
     \<and> (\<forall>p \<in> set (pp_projects (saveDraft t st)). pid p = pid d \<longrightarrow>
          progressPct p = Math_round (100 * of_nat (trueCount (checklist p)) / 4)
          \<and> updatedAt p = t)
     \<and> (\<forall>d'. pid d' = pid d \<and> checklist d' = checklist d \<longrightarrow>
          (\<exists>p p'. find (\<lambda>p. pid p = pid d) (pp_projects (saveDraft t st)) = Some p
             \<and> find (\<lambda>p. pid p = pid d)
                  (pp_projects (saveDraft t' (openEdit d' (saveDraft t st)))) = Some p'
             \<and> progressPct p' = progressPct p \<and> updatedAt p' = t'))"
  (is "_ \<longrightarrow> ?saved \<and> ?all \<and> (\<forall>d'. ?same d' \<longrightarrow> ?twice d')")
proof
  assume d: "pp_draft st = Some d"
  have pct: "progressPct (saved_copy u e)
      = Math_round (100 * of_nat (trueCount (checklist (saved_copy u e))) / 4)" for u e
    by (simp only: saved_copy_fields round_percent_trueCount calcProgress_trueCount)
  have one: ?saved
    using saveDraft_find[OF d, of t] pct[of t d] by (simp add: saved_copy_fields)
  have two: ?all
  proof (intro ballI impI)
    fix p assume "p \<in> set (pp_projects (saveDraft t st))" "pid p = pid d"
    then have "p = saved_copy t d" by (rule saveDraft_members[OF d])
    then show "progressPct p = Math_round (100 * of_nat (trueCount (checklist p)) / 4)
          \<and> updatedAt p = t"
      using pct[of t d] by (simp add: saved_copy_fields)
  qed
  have three: "?twice d'" if "?same d'" for d'
  proof -
    have "pp_draft (openEdit d' (saveDraft t st)) = Some d'"
      by (simp add: openEdit_def)
    from saveDraft_find[OF this, of t'] that
    have "find (\<lambda>p. pid p = pid d)
            (pp_projects (saveDraft t' (openEdit d' (saveDraft t st)))) = Some (saved_copy t' d')"
      by simp
    with saveDraft_find[OF d, of t] that show ?thesis
      by (simp add: saved_copy_fields)
  qed
  from one two three show "?saved \<and> ?all \<and> (\<forall>d'. ?same d' \<longrightarrow> ?twice d')"
    by blast
qed

text \<open>
  Claim C10. \<open>saveDraft\<close> is an upsert on the project identifier. When the collection
  holds the draft's identifier, the length is kept, every position holding that
  identifier receives the saved copy and every other position keeps its record; with
  identifiers that are pairwise distinct this is one update in place. When no project
  has the identifier, the saved copy is put in front of the unchanged collection.
\<close>

theorem saveDraft_upsert:
  "pp_draft st = Some d \<longrightarrow>
     (list_ex (\<lambda>p. pid p = pid d) (pp_projects st) \<longrightarrow>
        length (pp_projects (saveDraft t st)) = length (pp_projects st)
        \<and> (\<forall>i < length (pp_projects st).
              pp_projects (saveDraft t st) ! i
                = (if pid (pp_projects st ! i) = pid d
                   then d\<lparr>progressPct := calcProgress (checklist d), updatedAt := t\<rparr>
                   else pp_projects st ! i)))
     \<and> (\<forall>i. distinct (map pid (pp_projects st)) \<and> i < length (pp_projects st)
              \<and> pid (pp_projects st ! i) = pid d \<longrightarrow>
           pp_projects (saveDraft t st)
             = (pp_projects st)
                 [i := d\<lparr>progressPct := calcProgress (checklist d), updatedAt := t\<rparr>])
     \<and> (\<not> list_ex (\<lambda>p. pid p = pid d) (pp_projects st) \<longrightarrow>
           pp_projects (saveDraft t st)
             = d\<lparr>progressPct := calcProgress (checklist d), updatedAt := t\<rparr>
               # pp_projects st)"
  (is "_ \<longrightarrow> ?upsert")
proof
  assume d: "pp_draft st = Some d"
  let ?prev = "pp_projects st"
  let ?c = "d\<lparr>progressPct := calcProgress (checklist d), updatedAt := t\<rparr>"
  have c: "saved_copy t d = ?c" by (simp add: saved_copy_def)
  note r = saveDraft_projects[OF d, of t, unfolded c]
  have one: "length (pp_projects (saveDraft t st)) = length ?prev
        \<and> (\<forall>i < length ?prev. pp_projects (saveDraft t st) ! i
                = (if pid (?prev ! i) = pid d then ?c else ?prev ! i))"
    if "list_ex (\<lambda>p. pid p = pid d) ?prev"
    using that by (simp add: r)
  have two: "pp_projects (saveDraft t st) = ?prev[i := ?c]"
    if "distinct (map pid ?prev) \<and> i < length ?prev \<and> pid (?prev ! i) = pid d" for i
  proof -
    have ex: "list_ex (\<lambda>p. pid p = pid d) ?prev"
      using that by (auto simp: list_ex_iff)
    have "map (\<lambda>p. if pid p = pid d then ?c else p) ?prev = ?prev[i := ?c]"
    proof (rule nth_equalityI)
      show "length (map (\<lambda>p. if pid p = pid d then ?c else p) ?prev)
              = length (?prev[i := ?c])"
        by simp
    next
      fix j assume "j < length (map (\<lambda>p. if pid p = pid d then ?c else p) ?prev)"
      then have j: "j < length ?prev" by simp
      have "pid (?prev ! j) = pid d \<longleftrightarrow> j = i"
        using that j nth_eq_iff_index_eq[of "map pid ?prev" j i] by auto
      then show "map (\<lambda>p. if pid p = pid d then ?c else p) ?prev ! j
                   = ?prev[i := ?c] ! j"
        using j that by (auto simp: nth_list_update)
    qed
    then show ?thesis using ex by (simp add: r)
  qed
  have three: "pp_projects (saveDraft t st) = ?c # ?prev"
    if "\<not> list_ex (\<lambda>p. pid p = pid d) ?prev"
    using that by (simp add: r)
  from one two three show ?upsert
    by blast
qed

lemma example_calc: "calcProgress (checklist (example_draft i)) = 25"
  by (simp add: example_draft_def calcProgress_eq)

theorem saveDraft_progress_witness:
  "pp_draft (example_page ''b'') = Some (example_draft ''b'')
   \<and> (\<exists>p. find (\<lambda>p. pid p = ''b'') (pp_projects (saveDraft 5 (example_page ''b''))) = Some p
          \<and> progressPct p = 25 \<and> updatedAt p = 5)
   \<and> (\<exists>p'. find (\<lambda>p. pid p = ''b'')
               (pp_projects (saveDraft 9 (openEdit (example_draft ''b'')
                  (saveDraft 5 (example_page ''b''))))) = Some p'
          \<and> progressPct p' = 25 \<and> updatedAt p' = 9)"
  using saveDraft_progress[of "example_page ''b''" "example_draft ''b''" 5 9]
  by (simp add: example_page_def example_draft_def example_project_def saveDraft_def
      saved_copy_def openEdit_def calcProgress_eq Let_def)

theorem saveDraft_upsert_witness:
  "pp_draft (example_page ''b'') = Some (example_draft ''b'')
   \<and> list_ex (\<lambda>p. pid p = ''b'') (pp_projects (example_page ''b''))
   \<and> distinct (map pid (pp_projects (example_page ''b'')))
   \<and> pp_projects (saveDraft 5 (example_page ''b''))
       = [example_project ''a'' Draft 0, (example_draft ''b'')\<lparr>progressPct := 25, updatedAt := 5\<rparr>]
   \<and> pp_draft (example_page ''c'') = Some (example_draft ''c'')
   \<and> \<not> list_ex (\<lambda>p. pid p = ''c'') (pp_projects (example_page ''c''))
   \<and> pp_projects (saveDraft 5 (example_page ''c''))
       = [(example_draft ''c'')\<lparr>progressPct := 25, updatedAt := 5\<rparr>,
          example_project ''a'' Draft 0, example_project ''b'' Active 0]"
  using saveDraft_upsert[of "example_page ''b''" "example_draft ''b''" 5]
    saveDraft_upsert[of "example_page ''c''" "example_draft ''c''" 5]
  by (simp add: example_page_def example_draft_def example_project_def saveDraft_def
      saved_copy_def calcProgress_eq Let_def)

section \<open>Properties of the user and guest handlers\<close>

text \<open>
  Claim C8. A team member with a blank name or a blank email is not added, and a guest
  with a blank name is not saved: the handler returns the page state it was given,
  collection included.
\<close>

theorem validation_aborts:
  "(blank (tp_name st) \<or> blank (tp_email st) \<longrightarrow> TeamPage_add fresh t st = (st, None))
   \<and> (gp_g gs = Some g \<and> blank (g_name g)
        \<longrightarrow> GuestsPage_save gs = (gs, Some ''Name required''))"
  by (simp add: TeamPage_add_def GuestsPage_save_def trim_empty_iff)

theorem validation_aborts_witness:
  "blank (tp_name (example_team ''  '' ''x@y.z''))
   \<and> TeamPage_add ''usr_2'' 7 (example_team ''  '' ''x@y.z'') = (example_team ''  '' ''x@y.z'', None)
   \<and> blank (tp_email (example_team ''Bob'' []))
   \<and> TeamPage_add ''usr_2'' 7 (example_team ''Bob'' []) = (example_team ''Bob'' [], None)
   \<and> gp_g (example_guests '' '') = Some (example_guest ''gst_2'' '' '')
   \<and> blank (g_name (example_guest ''gst_2'' '' ''))
   \<and> GuestsPage_save (example_guests '' '') = (example_guests '' '', Some ''Name required'')"
proof -
  have b: "blank ''  ''" "blank []" "blank '' ''"
    by (simp_all add: blank_def isWhiteSpace_def)
  show ?thesis
    using b validation_aborts[of "example_team ''  '' ''x@y.z''" "''usr_2''" 7 "example_guests '' ''" "example_guest ''gst_2'' '' ''"]
      validation_aborts[of "example_team ''Bob'' []" "''usr_2''" 7 "example_guests '' ''" "example_guest ''gst_2'' '' ''"]
    by (simp add: example_team_def example_guests_def example_guest_def)
qed

lemma split_at_first_spec:
  "\<exists>rest. email = split_at_first email @ rest \<and> CHR ''@'' \<notin> set (split_at_first email)
     \<and> (rest = [] \<or> hd rest = CHR ''@'')"
proof -
  have "email = split_at_first email @ dropWhile (\<lambda>c. c \<noteq> CHR ''@'') email"
    by (simp add: split_at_first_def)
  moreover have "CHR ''@'' \<notin> set (split_at_first email)"
    unfolding split_at_first_def by (auto dest: set_takeWhileD)
  moreover have "dropWhile (\<lambda>c. c \<noteq> CHR ''@'') email = []
      \<or> hd (dropWhile (\<lambda>c. c \<noteq> CHR ''@'') email) = CHR ''@''"
    using hd_dropWhile[of "\<lambda>c. c \<noteq> CHR ''@''" email] by auto
  ultimately show ?thesis by blast
qed

lemma handleLogin_users:
  "app_users (fst (handleLogin fresh t e n st)) = app_users st
   \<or> (\<exists>u. app_users (fst (handleLogin fresh t e n st)) = app_users st @ [u])"
  by (auto simp: handleLogin_def Let_def split: option.splits)

text \<open>
  Claim C9. A login whose email is not blank and equals no stored email after
  lower-casing both appends one user: role \<open>member\<close>, the email as typed, the name as
  supplied or, without one, the email up to its first \<open>@\<close>. Whatever the login, the
  users stored before it stay as they are, at the front of the collection.
\<close>

theorem handleLogin_new_user:
  "(\<not> blank email \<and> (\<forall>u \<in> set (app_users st). toLowerCase (u_email u) \<noteq> toLowerCase email)
      \<longrightarrow> app_users (fst (handleLogin fresh t email name st))
            = app_users st
              @ [\<lparr>u_id = fresh,
                   u_name = (case name of
                               None \<Rightarrow> takeWhile (\<lambda>c. c \<noteq> CHR ''@'') email
                             | Some n \<Rightarrow> if n = [] then takeWhile (\<lambda>c. c \<noteq> CHR ''@'') email
                                         else n),
                   u_email = email, u_role = Member, u_createdAt = t\<rparr>])
   \<and> prefix (app_users st) (app_users (fst (handleLogin fresh t email name st)))"
  (is "(?fresh \<longrightarrow> ?appended) \<and> ?kept")
proof -
  have "find (\<lambda>u. toLowerCase (u_email u) = toLowerCase email) (app_users st) = None"
    if "\<forall>u \<in> set (app_users st). toLowerCase (u_email u) \<noteq> toLowerCase email"
    using that by (simp add: find_None_iff)
  then have one: ?appended if ?fresh
    using that
    by (simp add: handleLogin_def Let_def trim_empty_iff name_or_def split_at_first_def)
  have two: ?kept
    using handleLogin_users[of fresh t email name st] by (auto simp: prefix_def)
  from one two show ?thesis by blast
qed

theorem handleLogin_new_user_witness:
  "\<not> blank ''Tester@Example.com''
   \<and> list_all (\<lambda>u. toLowerCase (u_email u) \<noteq> toLowerCase ''Tester@Example.com'')
        (app_users example_app)
   \<and> app_users (fst (handleLogin ''usr_2'' 7 ''Tester@Example.com'' (Some []) example_app))
       = [example_user ''usr_1'' ''Admin'' ''admin@example.com'' Admin,
          \<lparr>u_id = ''usr_2'', u_name = ''Tester'', u_email = ''Tester@Example.com'',
           u_role = Member, u_createdAt = 7\<rparr>]
   \<and> app_users (fst (handleLogin ''usr_2'' 7 ''Tester@Example.com'' (Some ''Tess'') example_app))
       = [example_user ''usr_1'' ''Admin'' ''admin@example.com'' Admin,
          \<lparr>u_id = ''usr_2'', u_name = ''Tess'', u_email = ''Tester@Example.com'',
           u_role = Member, u_createdAt = 7\<rparr>]"
proof -
  have nb: "\<not> blank ''Tester@Example.com''"
    by (simp add: blank_def isWhiteSpace_def)
  have ne: "toLowerCase ''admin@example.com'' \<noteq> toLowerCase ''Tester@Example.com''"
    by code_simp
  have all: "list_all (\<lambda>u. toLowerCase (u_email u) \<noteq> toLowerCase ''Tester@Example.com'')
        (app_users example_app)"
    using ne by (simp add: example_app_def example_user_def)
  then have h: "\<forall>u \<in> set (app_users example_app).
      toLowerCase (u_email u) \<noteq> toLowerCase ''Tester@Example.com''"
    by (simp only: list_all_iff)
  show ?thesis
    using nb all
      handleLogin_new_user[of "''Tester@Example.com''" example_app "''usr_2''" 7 "Some []"]
      handleLogin_new_user[of "''Tester@Example.com''" example_app "''usr_2''" 7 "Some ''Tess''"]
      h
    by (simp add: example_app_def)
qed

section \<open>Properties of the project filter and sort\<close>

lemma mset_insert_cmp: "mset (insert_cmp cmp x ys) = add_mset x (mset ys)"
  by (induction ys) simp_all

lemma mset_Array_sort: "mset (Array_sort cmp xs) = mset xs"
  unfolding Array_sort_def by (induction xs) (simp_all add: mset_insert_cmp)

lemma set_insert_cmp: "set (insert_cmp cmp x ys) = insert x (set ys)"
  using mset_insert_cmp[of cmp x ys, THEN arg_cong, of set_mset] by simp

lemma set_Array_sort: "set (Array_sort cmp xs) = set xs"
  using mset_Array_sort[of cmp xs, THEN arg_cong, of set_mset] by simp

text \<open>The sort orders a list on which the comparator is total and transitive; what
  the comparator does on other elements does not matter.\<close>

lemma sorted_insert_cmp:
  assumes tot: "\<And>a b. a \<in> A \<Longrightarrow> b \<in> A \<Longrightarrow> 0 < cmp a b \<Longrightarrow> cmp b a \<le> 0"
    and trans: "\<And>a b c. a \<in> A \<Longrightarrow> b \<in> A \<Longrightarrow> c \<in> A
                  \<Longrightarrow> cmp a b \<le> 0 \<Longrightarrow> cmp b c \<le> 0 \<Longrightarrow> cmp a c \<le> 0"
    and "x \<in> A" "set ys \<subseteq> A" "sorted_wrt (\<lambda>a b. cmp a b \<le> 0) ys"
  shows "sorted_wrt (\<lambda>a b. cmp a b \<le> 0) (insert_cmp cmp x ys)"
  using assms(3-5)
proof (induction ys)
  case Nil
  then show ?case by simp
next
  case (Cons y ys)
  show ?case
  proof (cases "cmp x y \<le> 0")
    case True
    have "cmp x z \<le> 0" if "z \<in> set ys" for z
    proof -
      have "cmp y z \<le> 0" using Cons.prems(3) that by simp
      with True show ?thesis
        using trans[of x y z] Cons.prems(1,2) that by auto
    qed
    then show ?thesis using True Cons.prems by simp
  next
    case False
    then have "cmp y x \<le> 0" using tot[of x y] Cons.prems(1,2) by simp
    then show ?thesis
      using False Cons by (simp add: set_insert_cmp)
  qed
qed

lemma sorted_Array_sort:
  assumes tot: "\<And>a b. a \<in> A \<Longrightarrow> b \<in> A \<Longrightarrow> 0 < cmp a b \<Longrightarrow> cmp b a \<le> 0"
    and trans: "\<And>a b c. a \<in> A \<Longrightarrow> b \<in> A \<Longrightarrow> c \<in> A
                  \<Longrightarrow> cmp a b \<le> 0 \<Longrightarrow> cmp b c \<le> 0 \<Longrightarrow> cmp a c \<le> 0"
    and "set xs \<subseteq> A"
  shows "sorted_wrt (\<lambda>a b. cmp a b \<le> 0) (Array_sort cmp xs)"
  using assms(3)
proof (induction xs)
  case Nil
  then show ?case by (simp add: Array_sort_def)
next
  case (Cons x xs)
  have "sorted_wrt (\<lambda>a b. cmp a b \<le> 0) (insert_cmp cmp x (Array_sort cmp xs))"
  proof (rule sorted_insert_cmp[of A cmp])
    show "x \<in> A" "set (Array_sort cmp xs) \<subseteq> A"
      using Cons.prems by (simp_all add: set_Array_sort)
    show "sorted_wrt (\<lambda>a b. cmp a b \<le> 0) (Array_sort cmp xs)"
      using Cons by simp
  qed (fact tot, fact trans)
  then show ?case by (simp add: Array_sort_def)
qed

text \<open>A collation separates the series of a list when it returns zero for no two
  different series names of the list.\<close>

lemma episodeCmp_le:
  assumes "episodeCmp lc a b \<le> 0"
    and "series a \<noteq> series b \<longrightarrow> lc (series a) (series b) \<noteq> 0"
  shows "episodeKeyLe lc a b"
  using assms by (auto simp: episodeCmp_def episodeKeyLe_def split: if_splits)

lemma sorted_episode:
  assumes c: "consistent lc"
    and sep: "\<forall>x \<in> A. \<forall>y \<in> A. series x \<noteq> series y \<longrightarrow> lc (series x) (series y) \<noteq> 0"
    and sub: "set xs \<subseteq> A"
  shows "sorted_wrt (episodeKeyLe lc) (Array_sort (episodeCmp lc) xs)"
proof -
  have anti: "lc u v < 0 \<longleftrightarrow> 0 < lc v u" for u v
    using c by (simp add: consistent_def)
  have tr: "lc u w \<le> 0" if "lc u v \<le> 0" "lc v w \<le> 0" for u v w
    using c that unfolding consistent_def by blast
  have "sorted_wrt (\<lambda>a b. episodeCmp lc a b \<le> 0) (Array_sort (episodeCmp lc) xs)"
  proof (rule sorted_Array_sort[of A])
    fix a b assume "a \<in> A" "b \<in> A" "0 < episodeCmp lc a b"
    then show "episodeCmp lc b a \<le> 0"
      using anti[of "series b" "series a"] by (auto simp: episodeCmp_def split: if_splits)
  next
    fix a b d assume m: "a \<in> A" "b \<in> A" "d \<in> A"
      and le: "episodeCmp lc a b \<le> 0" "episodeCmp lc b d \<le> 0"
    show "episodeCmp lc a d \<le> 0"
    proof (cases "series a = series d")
      case False
      then show ?thesis
        using le tr[of "series a" "series b" "series d"]
        by (auto simp: episodeCmp_def split: if_splits)
    next
      case True
      show ?thesis
      proof (cases "series a = series b")
        case same: True
        then show ?thesis using le True by (simp add: episodeCmp_def)
      next
        case diff: False
        moreover have "lc (series a) (series b) \<noteq> 0"
          using sep m(1,2) diff by blast
        moreover have "lc (series a) (series b) \<le> 0"
          using le(1) diff by (simp add: episodeCmp_def)
        ultimately have "lc (series a) (series b) < 0" by simp
        then have "0 < lc (series b) (series a)" by (simp add: anti)
        then show ?thesis using le(2) diff True by (simp add: episodeCmp_def)
      qed
    qed
  next
    show "set xs \<subseteq> A" by (rule sub)
  qed
  moreover have "episodeKeyLe lc a b"
    if "a \<in> set (Array_sort (episodeCmp lc) xs)" "b \<in> set (Array_sort (episodeCmp lc) xs)"
      "episodeCmp lc a b \<le> 0" for a b
  proof -
    have "a \<in> A" "b \<in> A" using that(1,2) sub by (auto simp: set_Array_sort)
    then have "series a \<noteq> series b \<longrightarrow> lc (series a) (series b) \<noteq> 0"
      using sep by blast
    with that(3) show ?thesis by (rule episodeCmp_le)
  qed
  ultimately show ?thesis
    by (rule sorted_wrt_mono_rel[rotated])
qed

lemma includes_str_sublist: "includes_str s q \<longleftrightarrow> sublist q s"
  by (induction s) (simp_all add: sublist_Cons_right)

lemma matchesQuery_fieldMatch: "matchesQuery (toLowerCase q) p \<longleftrightarrow> fieldMatch q p"
  by (simp add: matchesQuery_def fieldMatch_def includes_str_sublist)

lemma mset_filtered:
  "mset (filtered lc ps sf pf q k) = filter_mset (passes sf pf q) (mset ps)"
proof -
  have k: "mset (case k of
           ByUpdatedAt \<Rightarrow> Array_sort (\<lambda>a b. updatedAt b - updatedAt a) l
         | ByProgress \<Rightarrow> Array_sort (\<lambda>a b. progressPct b - progressPct a) l
         | ByEpisode \<Rightarrow> Array_sort (episodeCmp lc) l) = mset l" for l
    by (cases k) (simp_all add: mset_Array_sort)
  have s1: "mset (case sf of None \<Rightarrow> ps | Some s \<Rightarrow> filter (\<lambda>p. status p = s) ps)
      = filter_mset (\<lambda>p. case sf of None \<Rightarrow> True | Some s \<Rightarrow> status p = s) (mset ps)"
    by (cases sf) simp_all
  have s2: "mset (case pf of None \<Rightarrow> l | Some r \<Rightarrow> filter (\<lambda>p. priority p = r) l)
      = filter_mset (\<lambda>p. case pf of None \<Rightarrow> True | Some r \<Rightarrow> priority p = r) (mset l)" for l
    by (cases pf) simp_all
  have s3: "mset (if trim q \<noteq> [] then filter (matchesQuery (toLowerCase q)) l else l)
      = filter_mset (\<lambda>p. blank q \<or> fieldMatch q p) (mset l)" for l
    by (simp add: trim_empty_iff matchesQuery_fieldMatch[abs_def])
  show ?thesis
    unfolding filtered_def Let_def k s3 s2 s1
    by (auto simp: passes_def filter_filter_mset intro!: filter_mset_cong)
qed

lemma filtered_episode:
  "\<exists>xs. set xs \<subseteq> set ps \<and> filtered lc ps sf pf q ByEpisode = Array_sort (episodeCmp lc) xs"
proof -
  obtain xs where xs: "filtered lc ps sf pf q ByEpisode = Array_sort (episodeCmp lc) xs"
    unfolding filtered_def Let_def sortKey.case by blast
  have "set xs = set_mset (mset (filtered lc ps sf pf q ByEpisode))"
    by (simp add: xs set_Array_sort)
  then have "set xs \<subseteq> set ps"
    unfolding mset_filtered by auto
  with xs show ?thesis by blast
qed

lemma example_collation_neg:
  "example_collation a b < 0 \<longleftrightarrow>
     primaryKey a < primaryKey b
     \<or> (primaryKey a = primaryKey b \<and> unhyphened b < unhyphened a)"
  by (auto simp: example_collation_def)

lemma example_collation_pos:
  "0 < example_collation a b \<longleftrightarrow>
     primaryKey b < primaryKey a
     \<or> (primaryKey a = primaryKey b \<and> unhyphened a < unhyphened b)"
  by (auto simp: example_collation_def)

lemma example_collation_le:
  "example_collation a b \<le> 0 \<longleftrightarrow>
     primaryKey a < primaryKey b
     \<or> (primaryKey a = primaryKey b \<and> unhyphened b \<le> unhyphened a)"
  by (auto simp: example_collation_def)

lemma consistent_example_collation: "consistent example_collation"
proof -
  have "example_collation a b < 0 \<longleftrightarrow> 0 < example_collation b a" for a b
    unfolding example_collation_neg example_collation_pos by auto
  moreover have "example_collation a c \<le> 0"
    if "example_collation a b \<le> 0 \<and> example_collation b c \<le> 0" for a b c
    using that unfolding example_collation_le by (auto intro: less_trans order_trans)
  ultimately show ?thesis unfolding consistent_def by blast
qed

text \<open>
  Claim C5, as amended. The collation is a consistent comparator, and it separates the
  series names of the list. Then sorting by the episode key orders the projects by
  series name, ascending in the order of the collation, and within a series by
  ascending episode number: the projects of one series are contiguous, and inside a
  series the episode numbers ascend. Without filters the result is a rearrangement of
  the whole list.
\<close>

theorem episode_sort:
  "consistent lc
   \<and> (\<forall>x \<in> set ps. \<forall>y \<in> set ps.
         series x \<noteq> series y \<longrightarrow> lc (series x) (series y) \<noteq> 0)
   \<longrightarrow>
     sorted_wrt (\<lambda>a b. lc (series a) (series b) < 0
                       \<or> (series a = series b \<and> episodeNumber a \<le> episodeNumber b))
       (filtered lc ps sf pf q ByEpisode)
     \<and> (\<forall>i j k. i < j \<and> j < k \<and> k < length (filtered lc ps sf pf q ByEpisode)
            \<and> series (filtered lc ps sf pf q ByEpisode ! i)
                = series (filtered lc ps sf pf q ByEpisode ! k)
          \<longrightarrow> series (filtered lc ps sf pf q ByEpisode ! j)
                = series (filtered lc ps sf pf q ByEpisode ! i))
     \<and> (\<forall>i j. i < j \<and> j < length (filtered lc ps sf pf q ByEpisode)
            \<and> series (filtered lc ps sf pf q ByEpisode ! i)
                = series (filtered lc ps sf pf q ByEpisode ! j)
          \<longrightarrow> episodeNumber (filtered lc ps sf pf q ByEpisode ! i)
                \<le> episodeNumber (filtered lc ps sf pf q ByEpisode ! j))
     \<and> mset (filtered lc ps None None [] ByEpisode) = mset ps"
  (is "?cons \<and> ?sep \<longrightarrow> ?ordered \<and> ?grouped \<and> ?ascending \<and> ?all")
proof
  assume h: "?cons \<and> ?sep"
  let ?r = "filtered lc ps sf pf q ByEpisode"
  have anti: "lc u v < 0 \<longleftrightarrow> 0 < lc v u" for u v
    using h by (simp add: consistent_def)
  obtain xs where xs: "set xs \<subseteq> set ps" "?r = Array_sort (episodeCmp lc) xs"
    using filtered_episode by blast
  have srt: "sorted_wrt (episodeKeyLe lc) ?r"
    unfolding xs(2) using h xs(1) by (intro sorted_episode[of lc "set ps"]) simp_all
  have le: "episodeKeyLe lc (?r ! i) (?r ! j)" if "i < j" "j < length ?r" for i j
    using srt that by (simp add: sorted_wrt_iff_nth_less)
  have one: ?ordered
    using srt by (simp add: episodeKeyLe_def[abs_def])
  have two: "series (?r ! j) = series (?r ! i)"
    if "i < j \<and> j < k \<and> k < length ?r \<and> series (?r ! i) = series (?r ! k)" for i j k
  proof (rule ccontr)
    assume ne: "series (?r ! j) \<noteq> series (?r ! i)"
    have "episodeKeyLe lc (?r ! i) (?r ! j)" "episodeKeyLe lc (?r ! j) (?r ! k)"
      using that by (auto intro: le)
    then have "lc (series (?r ! i)) (series (?r ! j)) < 0"
      "lc (series (?r ! j)) (series (?r ! i)) < 0"
      using ne that by (auto simp: episodeKeyLe_def)
    then show False using anti[of "series (?r ! i)" "series (?r ! j)"] by simp
  qed
  have three: "episodeNumber (?r ! i) \<le> episodeNumber (?r ! j)"
    if "i < j \<and> j < length ?r \<and> series (?r ! i) = series (?r ! j)" for i j
  proof -
    have "\<not> lc (series (?r ! j)) (series (?r ! j)) < 0"
      using anti[of "series (?r ! j)" "series (?r ! j)"] by auto
    then show ?thesis using le[of i j] that by (auto simp: episodeKeyLe_def)
  qed
  have four: ?all
    by (simp add: mset_filtered passes_def[abs_def] blank_def)
  from one two three four show "?ordered \<and> ?grouped \<and> ?ascending \<and> ?all" by blast
qed

lemma example_episodes_sorted:
  "filtered example_collation example_episodes None None [] ByEpisode
     = [example_episode ''b'' ''Guest Series'' 1, example_episode ''d'' ''Main'' 1,
        example_episode ''a'' ''Main'' 2, example_episode ''c'' ''Main'' 3]"
  by code_simp

lemma example_episodes_separated:
  "\<forall>x \<in> set example_episodes. \<forall>y \<in> set example_episodes.
     series x \<noteq> series y \<longrightarrow> example_collation (series x) (series y) \<noteq> 0"
proof -
  have "example_collation ''Main'' ''Guest Series'' \<noteq> 0"
    "example_collation ''Guest Series'' ''Main'' \<noteq> 0"
    by code_simp+
  then show ?thesis
    by (simp add: example_episodes_def example_episode_def)
qed

theorem episode_sort_witness:
  "consistent example_collation
   \<and> example_collation ''Main'' ''Guest Series'' \<noteq> 0
   \<and> example_collation ''Guest Series'' ''Main'' \<noteq> 0
   \<and> filtered example_collation example_episodes None None [] ByEpisode
       = [example_episode ''b'' ''Guest Series'' 1, example_episode ''d'' ''Main'' 1,
          example_episode ''a'' ''Main'' 2, example_episode ''c'' ''Main'' 3]
   \<and> (1::nat) < 2 \<and> (2::nat) < 3
   \<and> 3 < length (filtered example_collation example_episodes None None [] ByEpisode)
   \<and> series (filtered example_collation example_episodes None None [] ByEpisode ! 1)
       = series (filtered example_collation example_episodes None None [] ByEpisode ! 3)
   \<and> series (filtered example_collation example_episodes None None [] ByEpisode ! 2)
       = series (filtered example_collation example_episodes None None [] ByEpisode ! 1)
   \<and> episodeNumber (filtered example_collation example_episodes None None [] ByEpisode ! 1)
       \<le> episodeNumber (filtered example_collation example_episodes None None [] ByEpisode ! 2)"
proof -
  have sep: "example_collation ''Main'' ''Guest Series'' \<noteq> 0"
    "example_collation ''Guest Series'' ''Main'' \<noteq> 0"
    by code_simp+
  show ?thesis
    using episode_sort[of example_collation example_episodes None None "[]"]
      consistent_example_collation example_episodes_separated sep
    by (simp add: example_episodes_sorted example_episode_def)
qed

text \<open>
  The order of the series names is the collation's, as \<open>localeCompare\<close> was chosen to
  give, not the lexicographic order of their characters: the collation puts \<open>apple\<close>
  before \<open>Banana\<close>, and so does the sort, while character by character the capital
  comes first.
\<close>

lemma example_cased_sorted:
  "filtered example_collation example_cased None None [] ByEpisode
     = [example_episode ''b'' ''apple'' 1, example_episode ''a'' ''Banana'' 1]"
  by code_simp

theorem episode_sort_lexicographic_counterexample:
  "filtered example_collation example_cased None None [] ByEpisode
     = [example_episode ''b'' ''apple'' 1, example_episode ''a'' ''Banana'' 1]
   \<and> ''Banana'' < ''apple''
   \<and> \<not> sorted_wrt (\<lambda>a b. series a < series b
                          \<or> (series a = series b \<and> episodeNumber a \<le> episodeNumber b))
          (filtered example_collation example_cased None None [] ByEpisode)"
  by (simp add: example_cased_sorted example_episode_def)

text \<open>
  Where the collation returns zero for two different series names, the comparator
  takes \<open>a.series !== b.series\<close>, gets zero from \<open>localeCompare\<close> and never looks at the
  episode numbers. The comparator is then no longer consistent, the language leaves
  the result to the engine, and the sort leaves this list as it is: series \<open>Main\<close>
  split, and its episode 2 before its episode 1.
\<close>

lemma episode_sort_unseparated:
  "example_collation ''Main'' (''Ma'' @ [CHR 0xAD] @ ''in'') = 0
   \<and> filtered example_collation example_hyphened None None [] ByEpisode = example_hyphened"
  by code_simp

text \<open>
  Claim C4, as amended. The filter keeps exactly the projects that have the status of
  an active status filter, the priority of an active priority filter and, when the
  query has a character that is not white space, the lower-cased query as a substring
  of the lower-cased title, description, space-joined tag list or series name, each
  searched on its own. A blank query keeps every project that passes the two filters
  (all of them when none is active), and any query keeps a part of that.
\<close>

theorem filtered_keeps:
  "mset (filtered lc ps sf pf q k)
     = {#p \<in># mset ps.
          (case sf of None \<Rightarrow> True | Some s \<Rightarrow> status p = s)
          \<and> (case pf of None \<Rightarrow> True | Some r \<Rightarrow> priority p = r)
          \<and> (blank q
              \<or> sublist (toLowerCase q) (toLowerCase (title p))
              \<or> sublist (toLowerCase q)
                   (toLowerCase (case description p of None \<Rightarrow> [] | Some d \<Rightarrow> d))
              \<or> sublist (toLowerCase q) (toLowerCase (join '' '' (tags p)))
              \<or> sublist (toLowerCase q) (toLowerCase (series p)))#}
   \<and> (blank q \<longrightarrow> mset (filtered lc ps None None q k) = mset ps)
   \<and> mset (filtered lc ps sf pf q k) \<subseteq># mset (filtered lc ps sf pf [] k)"
  (is "?exact \<and> (_ \<longrightarrow> ?all) \<and> ?part")
proof -
  have one: ?exact
    unfolding mset_filtered by (simp add: passes_def[abs_def] fieldMatch_def)
  have two: ?all if "blank q"
    using that by (simp add: mset_filtered passes_def[abs_def])
  have "passes sf pf [] p" if "passes sf pf q p" for p
    using that by (simp add: passes_def blank_def)
  then have three: ?part
    unfolding mset_filtered by (intro filter_mset_mono_strong subset_mset.order_refl)
  from one two three show ?thesis by blast
qed

lemma smoke_search:
  "filtered example_collation [smoke_alpha, smoke_beta] None None ''alpha'' ByUpdatedAt
     = [smoke_alpha]"
  "filtered example_collation [smoke_alpha, smoke_beta] None None ''tech'' ByUpdatedAt
     = [smoke_beta]"
  "filtered example_collation [smoke_alpha, smoke_beta] None None '' '' ByUpdatedAt
     = [smoke_alpha, smoke_beta]"
  by code_simp+

theorem filtered_keeps_witness:
  "blank '' ''
   \<and> mset (filtered example_collation [smoke_alpha, smoke_beta] None None '' '' ByUpdatedAt)
       = mset [smoke_alpha, smoke_beta]
   \<and> filtered example_collation [smoke_alpha, smoke_beta] None None ''alpha'' ByUpdatedAt
       = [smoke_alpha]
   \<and> filtered example_collation [smoke_alpha, smoke_beta] None None ''tech'' ByUpdatedAt
       = [smoke_beta]"
proof -
  have b: "blank '' ''" by (simp add: blank_def isWhiteSpace_def)
  show ?thesis
    using b filtered_keeps[of example_collation "[smoke_alpha, smoke_beta]" None None "'' ''"
        ByUpdatedAt]
    by (simp add: smoke_search)
qed

text \<open>
  The claim as first stated fails twice on one project titled \<open>Alpha\<close> in series
  \<open>Main\<close>: the query \<open>aM\<close> occurs in the concatenation \<open>AlphaMain\<close> but in no single
  field, so the code drops the project; and the query made of one tab is not empty,
  occurs nowhere, yet the code keeps the project because \<open>query.trim()\<close> is empty.
\<close>

lemma crossing_query:
  "filtered example_collation [example_project ''a'' Draft 0] (Some Draft) (Some High) ''aM''
     ByUpdatedAt = []"
  "keeps_spec Draft High ''aM'' (example_project ''a'' Draft 0)"
  by code_simp+

lemma tab_query:
  "filtered example_collation [example_project ''a'' Draft 0] (Some Draft) (Some High)
     [CHR 0x09] ByUpdatedAt
     = [example_project ''a'' Draft 0]"
  "\<not> keeps_spec Draft High [CHR 0x09] (example_project ''a'' Draft 0)"
  by code_simp+

theorem filtered_concatenation_counterexample:
  "set (filtered example_collation [example_project ''a'' Draft 0] (Some Draft) (Some High)
          ''aM'' ByUpdatedAt)
     \<noteq> {p \<in> set [example_project ''a'' Draft 0]. keeps_spec Draft High ''aM'' p}
   \<and> set (filtered example_collation [example_project ''a'' Draft 0] (Some Draft) (Some High)
            [CHR 0x09] ByUpdatedAt)
     \<noteq> {p \<in> set [example_project ''a'' Draft 0]. keeps_spec Draft High [CHR 0x09] p}"
  using crossing_query tab_query by auto

end
